theory Spec2Isabelle
  imports Complex_Main "HOL-Library.Sublist" "HOL-Library.AList"
begin

section \<open>Python strings\<close>

text \<open>
  A Python \<open>str\<close> is modelled as a \<open>string\<close>, a list of 8-bit characters: one \<open>char\<close>
  stands for one code point in the range 0..255. Indices are Python integers (\<open>int\<close>), so
  that \<open>-1\<close> ("not found") and negative slice bounds are values of the model.
\<close>

text \<open>\<open>str.isspace\<close> on the code points below 256.\<close>

definition isspace :: "char \<Rightarrow> bool" where
  "isspace c =
     (let n = (of_char c :: nat)
      in (9 \<le> n \<and> n \<le> 13) \<or> (28 \<le> n \<and> n \<le> 32) \<or> n = 133 \<or> n = 160)"

definition lstrip :: "string \<Rightarrow> string" where
  "lstrip s = dropWhile isspace s"

definition rstrip :: "string \<Rightarrow> string" where
  "rstrip s = rev (dropWhile isspace (rev s))"

definition strip :: "string \<Rightarrow> string" where
  "strip s = lstrip (rstrip s)"

text \<open>\<open>str.lower\<close> on the code points below 256: A-Z and the Latin-1 capitals.\<close>

definition lower_char :: "char \<Rightarrow> char" where
  "lower_char c =
     (let n = (of_char c :: nat)
      in if (65 \<le> n \<and> n \<le> 90) \<or> (192 \<le> n \<and> n \<le> 222 \<and> n \<noteq> 215)
         then char_of (n + 32) else c)"

definition lower :: "string \<Rightarrow> string" where
  "lower s = map lower_char s"

text \<open>
  A slice bound \<open>k\<close> on a sequence of length \<open>n\<close>: negative bounds count from the end,
  and every bound is clamped to \<open>0..n\<close>.
\<close>

definition slice_bound :: "int \<Rightarrow> int \<Rightarrow> nat" where
  "slice_bound n k = nat (if k < 0 then max 0 (n + k) else min k n)"

text \<open>\<open>s[a:b]\<close>\<close>

definition slice :: "'a list \<Rightarrow> int \<Rightarrow> int \<Rightarrow> 'a list" where
  "slice s a b =
     (let n = int (length s); lo = slice_bound n a; hi = slice_bound n b
      in take (hi - lo) (drop lo s))"

text \<open>
  \<open>s.rfind(sub)\<close>: the highest index at which \<open>sub\<close> occurs in \<open>s\<close>, or \<open>-1\<close>.
  \<open>rfind_from s sub k\<close> searches the start positions \<open>k, k - 1, ..., 0\<close>.
\<close>

fun rfind_from :: "string \<Rightarrow> string \<Rightarrow> nat \<Rightarrow> int" where
  "rfind_from s sub 0 = (if prefix sub s then 0 else - 1)"
| "rfind_from s sub (Suc k) =
     (if prefix sub (drop (Suc k) s) then int (Suc k) else rfind_from s sub k)"

definition rfind :: "string \<Rightarrow> string \<Rightarrow> int" where
  "rfind s sub = rfind_from s sub (length s)"




text \<open>\<open>s.replace(old, new)\<close>: every occurrence, found from left to right.\<close>

function replace :: "string \<Rightarrow> string \<Rightarrow> string \<Rightarrow> string" where
  "replace [] old new = (if old = [] then new else [])"
| "replace (c # cs) old new =
     (if old = [] then new @ c # replace cs old new
      else if prefix old (c # cs) then new @ replace (drop (length old) (c # cs)) old new
      else c # replace cs old new)"
  by pat_completeness auto
termination
  by (relation "measure (\<lambda>(s, old, new). length s)") (auto simp: neq_Nil_conv)

text \<open>\<open>sep.join(parts)\<close>\<close>

fun join :: "string \<Rightarrow> string list \<Rightarrow> string" where
  "join sep [] = []"
| "join sep [x] = x"
| "join sep (x # y # ys) = x @ sep @ join sep (y # ys)"

section \<open>Values and exceptions\<close>

text \<open>
  The values \<open>json.loads\<close> returns. A \<open>float\<close> is modelled by the rational number it
  stands for (rounding and range are not modelled); a \<open>dict\<close> by its list of items,
  read with \<open>map_of\<close>.
\<close>

datatype json =
    JNull
  | JBool bool
  | JInt int
  | JFloat rat
  | JStr string
  | JArr "json list"
  | JObj "(string \<times> json) list"

text \<open>The exceptions the modelled code raises, one constructor for each place.\<close>

datatype error =
    FileNotFound
  | UnsupportedFileType string
  | LibraryError
  | NoReadableText
  | MissingApiKey
  | RequestFailed
  | JSONTooIncomplete
  | JSONParseFailed
  | NotADict
  | FloatFailed
  | IntegrityError
  | Unhashable
  | NotAString
  | ColorFailed

text \<open>
  The library functions whose code is outside the repository: \<open>str\<close> on a value that is
  not a string, \<open>float\<close> on a string, and \<open>json.loads\<close> (\<open>None\<close> for a
  \<open>JSONDecodeError\<close>).
\<close>

record library =
  str_of :: "json \<Rightarrow> string"
  float_of_str :: "string \<Rightarrow> rat option"
  json_loads :: "string \<Rightarrow> json option"


text \<open>
  \<open>float(v)\<close>: \<open>TypeError\<close> on \<open>None\<close>, lists and dicts, \<open>ValueError\<close> on a string that
  is not a number.
\<close>

definition py_float :: "library \<Rightarrow> json \<Rightarrow> error + rat" where
  "py_float lib v =
     (case v of
        JInt n \<Rightarrow> Inr (of_int n)
      | JFloat r \<Rightarrow> Inr r
      | JBool b \<Rightarrow> Inr (if b then 1 else 0)
      | JStr s \<Rightarrow> (case float_of_str lib s of None \<Rightarrow> Inl FloatFailed | Some r \<Rightarrow> Inr r)
      | _ \<Rightarrow> Inl FloatFailed)"

text \<open>\<open>d.get(key, default)\<close>\<close>

definition dict_get :: "(string \<times> json) list \<Rightarrow> string \<Rightarrow> json \<Rightarrow> json" where
  "dict_get d key dflt = (case map_of d key of None \<Rightarrow> dflt | Some v \<Rightarrow> v)"

section \<open>Chunking in \<open>generate_questions_with_groq\<close>\<close>

definition MAX_CHUNK_SIZE :: int where
  "MAX_CHUNK_SIZE = 6000"

definition OVERLAP_SIZE :: int where
  "OVERLAP_SIZE = 800"

text \<open>
  The choice of the boundary inside a window that is not the last one: the positions
  returned by \<open>rfind\<close> are compared with \<open>chunk_end\<close> minus a fixed distance;
  \<open>-1\<close> when no comparison succeeds.
\<close>

definition find_boundary :: "string \<Rightarrow> int \<Rightarrow> int" where
  "find_boundary chunk chunk_end =
     (let last_question_mark = rfind chunk ''?'';
          last_double_newline = rfind chunk [CHR 0x0A, CHR 0x0A];
          last_newline = rfind chunk [CHR 0x0A];
          last_period = rfind chunk ''.''
      in if last_question_mark > chunk_end - 1000 then last_question_mark
         else if last_double_newline > chunk_end - 800 then last_double_newline
         else if last_newline > chunk_end - 500 then last_newline
         else if last_period > chunk_end - 300 then last_period
         else - 1)"

text \<open>
  One iteration of the \<open>while\<close> loop, up to the test \<open>chunk.strip()\<close>: the window start
  \<open>i\<close> is mapped to the chunk cut from the window and to the next window start.
\<close>

definition chunk_step :: "string \<Rightarrow> int \<Rightarrow> string \<times> int" where
  "chunk_step text i =
     (let chunk_end = min (i + MAX_CHUNK_SIZE) (int (length text));
          chunk = slice text i chunk_end
      in if chunk_end < int (length text) then
           (let boundary = find_boundary chunk chunk_end
            in if boundary > chunk_end - 1000
               then (slice chunk 0 (boundary + 1), i + boundary + 1 - OVERLAP_SIZE)
               else (chunk, chunk_end - OVERLAP_SIZE))
         else (chunk, chunk_end))"

text \<open>
  The \<open>while i < len(text)\<close> loop. \<open>chunks\<close> is the list the source builds. \<open>windows\<close>
  is a trace the source does not keep: the start index and the cut text of every
  iteration, before stripping, recorded to state how consecutive windows overlap.
  The loop is a partial function: \<open>None\<close> stands for a loop that never exits.
\<close>

partial_function (option) chunk_loop ::
  "string \<Rightarrow> int \<Rightarrow> string list \<Rightarrow> (int \<times> string) list
     \<Rightarrow> (string list \<times> (int \<times> string) list) option" where
  "chunk_loop text i chunks windows =
     (if i < int (length text) then
        chunk_loop text (snd (chunk_step text i))
          (if strip (fst (chunk_step text i)) \<noteq> []
           then chunks @ [strip (fst (chunk_step text i))] else chunks)
          (windows @ [(i, fst (chunk_step text i))])
      else Some (chunks, windows))"

text \<open>The chunking step: the list \<open>chunks\<close> handed to the request loop.\<close>

definition chunk_text :: "string \<Rightarrow> string list option" where
  "chunk_text text =
     (if int (length text) > MAX_CHUNK_SIZE
      then map_option fst (chunk_loop text 0 [] [])
      else Some [text])"

text \<open>
  The number of text positions that two windows of the trace share; a window is a start
  index with the text cut there.
\<close>

definition window_overlap :: "int \<times> string \<Rightarrow> int \<times> string \<Rightarrow> int" where
  "window_overlap w1 w2 =
     max 0 (min (fst w1 + int (length (snd w1))) (fst w2 + int (length (snd w2)))
              - max (fst w1) (fst w2))"

section \<open>Reading the reply for a chunk\<close>




section \<open>Normalizing the records\<close>











text \<open>
  A library instance for worked examples. It agrees with Python on the values the
  examples use: \<open>str(None)\<close>, \<open>float('0.9')\<close>, \<open>json.loads('{}')\<close> and
  \<open>json.loads('[]')\<close>.
\<close>

definition sample_library :: library where
  "sample_library =
     \<lparr>str_of = (\<lambda>v. ''None''),
      float_of_str = (\<lambda>s. if s = ''0.9'' then Some (9 / 10) else None),
      json_loads = (\<lambda>s. if s = ''{}'' then Some (JObj [])
                         else if s = ''[]'' then Some (JArr []) else None)\<rparr>"

section \<open>Text extraction\<close>

text \<open>
  \<open>os.path.splitext\<close> of the POSIX path module: the extension starts at the last dot
  of the last path component, unless only dots precede it there.
\<close>

definition splitext :: "string \<Rightarrow> string \<times> string" where
  "splitext p =
     (let sepIndex = rfind p ''/'';
          dotIndex = rfind p ''.''
      in if dotIndex > sepIndex \<and> (\<exists>c\<in>set (slice p (sepIndex + 1) dotIndex). c \<noteq> CHR ''.'')
         then (slice p 0 dotIndex, slice p dotIndex (int (length p)))
         else (p, []))"

text \<open>
  What the file system and the document libraries give for a path: whether it exists;
  for a PDF the result of \<open>get_text\<close> on every page, or the exception on that page, or
  the exception raised on opening; the raw text of a DOCX file; the decoded content of a
  text file.
\<close>

record files =
  path_exists :: "string \<Rightarrow> bool"
  pdf_pages :: "string \<Rightarrow> error + (error + string) list"
  docx_raw_text :: "string \<Rightarrow> error + string"
  read_text :: "string \<Rightarrow> error + string"

text \<open>The pages kept by the loop of lines 73 to 113: read without exception, not blank.\<close>

fun text_parts :: "(error + string) list \<Rightarrow> string list" where
  "text_parts [] = []"
| "text_parts (Inl e # pages) = text_parts pages"
| "text_parts (Inr t # pages) = (if strip t \<noteq> [] then t # text_parts pages else text_parts pages)"

definition extract_text_from_file :: "files \<Rightarrow> string \<Rightarrow> string \<Rightarrow> error + string" where
  "extract_text_from_file fs file_path filename =
     (let ext = lower (snd (splitext filename))
      in if \<not> path_exists fs file_path then Inl FileNotFound
         else if ext = ''.pdf'' then
           (case pdf_pages fs file_path of
              Inl e \<Rightarrow> Inl e
            | Inr pages \<Rightarrow> Inr (join [CHR 0x0A, CHR 0x0A] (text_parts pages)))
         else if ext \<in> set [''.docx'', ''.doc''] then docx_raw_text fs file_path
         else if ext = ''.txt'' then read_text fs file_path
         else Inl (UnsupportedFileType ext))"

section \<open>The handler \<open>generate_questions\<close>\<close>


text \<open>The paper as the request gives it: the values of \<open>filename\<close> and \<open>filePath\<close>.\<close>

record paper =
  filename :: "string option"
  filePath :: "string option"




text \<open>Files for worked examples: two text files, of 20 characters and of 4.\<close>

definition sample_files :: files where
  "sample_files =
     \<lparr>path_exists = (\<lambda>p. p = ''/uploads/q.txt'' \<or> p = ''/uploads/scan.txt''),
      pdf_pages = (\<lambda>p. Inl LibraryError),
      docx_raw_text = (\<lambda>p. Inl LibraryError),
      read_text = (\<lambda>p. if p = ''/uploads/q.txt'' then Inr ''Define osmosis. Why?''
                        else if p = ''/uploads/scan.txt'' then Inr ''  x ''
                        else Inl LibraryError)\<rparr>"

section \<open>The user store\<close>

text \<open>
  A row of the table \<open>users\<close>. \<open>row_id\<close> is the column \<open>id\<close>; the columns declared
  \<open>NOT NULL\<close> hold a string, the others may hold \<open>NULL\<close>; the timestamps are readings of
  the clock.
\<close>

record user_row =
  row_id :: string
  clerk_id :: string
  email :: string
  first_name :: "string option"
  last_name :: "string option"
  full_name :: "string option"
  image_url :: "string option"
  created_at :: nat
  updated_at :: nat

text \<open>The table, in the order of insertion.\<close>

type_synonym users_table = "user_row list"

text \<open>The constraints of the schema: \<open>id\<close> is the primary key, \<open>clerk_id\<close> and \<open>email\<close>
  are \<open>UNIQUE\<close>.\<close>

definition wf_users :: "users_table \<Rightarrow> bool" where
  "wf_users users =
     (distinct (map row_id users) \<and> distinct (map clerk_id users) \<and> distinct (map email users))"

text \<open>
  \<open>create_or_update_user\<close> on the table \<open>users\<close> at clock reading \<open>now\<close>: the table
  after the call, and the row returned or the \<open>sqlite3.IntegrityError\<close> raised by a
  statement that breaks a constraint. A failed statement changes nothing.
\<close>

definition create_or_update_user ::
  "users_table \<Rightarrow> nat \<Rightarrow> string \<Rightarrow> string \<Rightarrow> string option \<Rightarrow> string option
     \<Rightarrow> string option \<Rightarrow> string option \<Rightarrow> users_table \<times> (error + user_row option)" where
  "create_or_update_user users now cid mail fname lname fullname img =
     (case List.find (\<lambda>r. clerk_id r = cid) users of
        Some existing \<Rightarrow>
          (let users' =
                 map (\<lambda>r. if clerk_id r = cid
                          then r\<lparr>email := mail, first_name := fname, last_name := lname,
                                 full_name := fullname, image_url := img, updated_at := now\<rparr>
                          else r) users
           in if distinct (map email users')
              then (users', Inr (List.find (\<lambda>r. row_id r = row_id existing) users'))
              else (users, Inl IntegrityError))
      | None \<Rightarrow>
          (let user_id = cid;
               new_row = \<lparr>row_id = user_id, clerk_id = cid, email = mail, first_name = fname,
                            last_name = lname, full_name = fullname, image_url = img,
                            created_at = now, updated_at = now\<rparr>
           in if user_id \<in> set (map row_id users) \<or> cid \<in> set (map clerk_id users)
                   \<or> mail \<in> set (map email users)
              then (users, Inl IntegrityError)
              else (users @ [new_row],
                    Inr (List.find (\<lambda>r. row_id r = user_id) (users @ [new_row])))))"

section \<open>Document export\<close>

text \<open>Sequencing of steps that may raise: the first exception ends the computation.\<close>

definition and_then :: "error + 'a \<Rightarrow> ('a \<Rightarrow> error + 'b) \<Rightarrow> error + 'b" where
  "and_then r f = (case r of Inl e \<Rightarrow> Inl e | Inr x \<Rightarrow> f x)"

text \<open>The truth value of a parsed value, as \<open>bool(v)\<close>, \<open>if v\<close> and \<open>v or d\<close> take it.\<close>

definition py_bool :: "json \<Rightarrow> bool" where
  "py_bool v =
     (case v of
        JNull \<Rightarrow> False
      | JBool b \<Rightarrow> b
      | JInt n \<Rightarrow> n \<noteq> 0
      | JFloat r \<Rightarrow> r \<noteq> 0
      | JStr s \<Rightarrow> s \<noteq> []
      | JArr xs \<Rightarrow> xs \<noteq> []
      | JObj d \<Rightarrow> d \<noteq> [])"

text \<open>\<open>d.get(key)\<close>, with \<open>None\<close> for a missing key.\<close>

definition dict_get_none :: "(string \<times> json) list \<Rightarrow> string \<Rightarrow> json" where
  "dict_get_none d key = dict_get d key JNull"

text \<open>A value used as a dict: \<open>.get\<close>, \<open>.copy\<close> with \<open>.update\<close> and \<open>.items\<close> raise on
  anything else.\<close>

definition as_dict :: "json \<Rightarrow> error + (string \<times> json) list" where
  "as_dict v = (case v of JObj d \<Rightarrow> Inr d | _ \<Rightarrow> Inl NotADict)"

text \<open>A value used as a key of a dict of strings: lists and dicts are unhashable.\<close>

definition lookup_name :: "(string \<times> 'a) list \<Rightarrow> json \<Rightarrow> 'a \<Rightarrow> error + 'a" where
  "lookup_name table v dflt =
     (case v of
        JArr xs \<Rightarrow> Inl Unhashable
      | JObj d \<Rightarrow> Inl Unhashable
      | JStr s \<Rightarrow> Inr (case map_of table s of None \<Rightarrow> dflt | Some x \<Rightarrow> x)
      | _ \<Rightarrow> Inr dflt)"

text \<open>\<open>s.split(sep)\<close> for a separator of one character.\<close>

fun split_on :: "char \<Rightarrow> string \<Rightarrow> string list" where
  "split_on c [] = [[]]"
| "split_on c (x # xs) =
     (if x = c then [] # split_on c xs
      else (case split_on c xs of
              [] \<Rightarrow> [[x]]
            | ys # yss \<Rightarrow> (x # ys) # yss))"

definition DEFAULT_MARGINS :: "(string \<times> json) list" where
  "DEFAULT_MARGINS = [(''top'', JInt 1), (''bottom'', JInt 1), (''left'', JInt 1), (''right'', JInt 1)]"

definition DEFAULT_FORMATTING :: "(string \<times> json) list" where
  "DEFAULT_FORMATTING =
     [(''fontFamily'', JStr ''Arial''),
      (''fontSize'', JInt 12),
      (''fontColor'', JStr ''#000000''),
      (''bold'', JBool False),
      (''italic'', JBool False),
      (''underline'', JBool False),
      (''margins'', JObj DEFAULT_MARGINS),
      (''alignment'', JStr ''left''),
      (''lineSpacing'', JFloat (3 / 2)),
      (''pageNumbers'', JBool False)]"

text \<open>
  The functions of the document libraries that are taken as given:
  \<open>RGBColor.from_string\<close> (\<open>None\<close> for its \<open>ValueError\<close>) and \<open>HexColor\<close>; a colour is
  modelled by its 24-bit value.
\<close>

record doc_library =
  rgb_from_string :: "string \<Rightarrow> nat option"
  hex_color :: "json \<Rightarrow> error + nat"

text \<open>The stored document: the values of \<open>content\<close> and \<open>formatting\<close>, if present.\<close>

record document =
  content :: "string option"
  formatting :: "(string \<times> json) list option"

text \<open>The dict comprehension of line 48: \<open>float(v)\<close> for every value that is not \<open>None\<close>.\<close>

fun float_items :: "library \<Rightarrow> (string \<times> json) list \<Rightarrow> error + (string \<times> json) list" where
  "float_items lib [] = Inr []"
| "float_items lib ((k, v) # items) =
     (if v = JNull then float_items lib items
      else and_then (py_float lib v)
             (\<lambda>r. and_then (float_items lib items) (\<lambda>rest. Inr ((k, JFloat r) # rest))))"

text \<open>\<open>d.update(items)\<close> and \<open>d[k] = v\<close>: a known key keeps its place, a new one is added
  at the end.\<close>

definition dict_update :: "(string \<times> json) list \<Rightarrow> (string \<times> json) list \<Rightarrow> (string \<times> json) list" where
  "dict_update d items = fold (\<lambda>(k, v). AList.update k v) items d"

text \<open>The loop of \<open>merge_formatting\<close> over the items of \<open>new_values\<close>.\<close>

fun merge_items ::
  "library \<Rightarrow> (string \<times> json) list \<Rightarrow> (string \<times> json) list \<Rightarrow> error + (string \<times> json) list" where
  "merge_items lib fmt [] = Inr fmt"
| "merge_items lib fmt ((key, v) # items) =
     (case (key = ''margins'', v) of
        (True, JObj new_margins) \<Rightarrow>
          and_then (as_dict (dict_get fmt ''margins'' (JObj DEFAULT_MARGINS)))
            (\<lambda>merged_margins.
               and_then (float_items lib new_margins)
                 (\<lambda>floats.
                    merge_items lib
                      (AList.update ''margins'' (JObj (dict_update merged_margins floats)) fmt)
                      items))
      | _ \<Rightarrow> merge_items lib (AList.update key v fmt) items)"

definition merge_formatting ::
  "library \<Rightarrow> (string \<times> json) list \<Rightarrow> (string \<times> json) list \<Rightarrow> error + (string \<times> json) list" where
  "merge_formatting lib existing new_values =
     (if new_values = [] then Inr existing else merge_items lib existing new_values)"

subsection \<open>The DOCX path\<close>

text \<open>\<open>int(x)\<close> on a float: rounding towards zero.\<close>

definition py_int :: "rat \<Rightarrow> int" where
  "py_int x = (if 0 \<le> x then \<lfloor>x\<rfloor> else \<lceil>x\<rceil>)"

text \<open>\<open>Inches(x)\<close> and \<open>Pt(x)\<close> of \<open>docx.shared\<close>: a length in English metric units.\<close>

definition Inches :: "rat \<Rightarrow> int" where
  "Inches x = py_int (x * 914400)"

definition Pt :: "rat \<Rightarrow> int" where
  "Pt x = py_int (x * 12700)"

definition inches :: "library \<Rightarrow> json \<Rightarrow> int" where
  "inches lib v = (case py_float lib v of Inl e \<Rightarrow> Inches 1 | Inr x \<Rightarrow> Inches x)"

text \<open>\<open>s.lstrip('#')\<close> and \<open>s.upper()\<close> on the code points below 256.\<close>

definition upper_char :: "char \<Rightarrow> char" where
  "upper_char c =
     (let n = (of_char c :: nat)
      in if (97 \<le> n \<and> n \<le> 122) \<or> (224 \<le> n \<and> n \<le> 254 \<and> n \<noteq> 247)
         then char_of (n - 32) else c)"

definition parse_color :: "doc_library \<Rightarrow> json \<Rightarrow> error + nat option" where
  "parse_color dl color_str =
     (if \<not> py_bool color_str then Inr None
      else case color_str of
             JStr s \<Rightarrow>
               (let color = dropWhile (\<lambda>c. c = CHR ''#'') s
                in if length color \<noteq> 6 then Inr None
                   else Inr (rgb_from_string dl (map upper_char color)))
           | _ \<Rightarrow> Inl NotAString)"

text \<open>A paragraph of the document with its single run, as the two \<open>apply\<close> functions
  leave it.\<close>

record docx_paragraph =
  run_text :: string
  run_font_name :: json
  run_font_size :: int
  run_color :: "nat option"
  run_bold :: bool
  run_italic :: bool
  run_underline :: bool
  par_alignment :: string
  par_line_spacing :: rat

definition add_paragraph ::
  "library \<Rightarrow> doc_library \<Rightarrow> (string \<times> json) list \<Rightarrow> string \<Rightarrow> error + docx_paragraph" where
  "add_paragraph lib dl fmt para =
     (let text = rstrip para
      in and_then (parse_color dl (dict_get_none fmt ''fontColor''))
           (\<lambda>color.
              and_then (lookup_name [(''left'', ''left''), (''center'', ''center''),
                                     (''right'', ''right''), (''justify'', ''justify'')]
                          (dict_get fmt ''alignment'' (JStr ''left'')) ''left'')
                (\<lambda>align.
                   Inr \<lparr>run_text = (if strip text \<noteq> [] then text else '' ''),
                        run_font_name =
                          (if py_bool (dict_get_none fmt ''fontFamily'')
                           then dict_get_none fmt ''fontFamily'' else JStr ''Arial''),
                        run_font_size =
                          (case py_float lib (dict_get_none fmt ''fontSize'') of
                             Inl e \<Rightarrow> Pt 12 | Inr x \<Rightarrow> Pt x),
                        run_color = color,
                        run_bold = py_bool (dict_get_none fmt ''bold''),
                        run_italic = py_bool (dict_get_none fmt ''italic''),
                        run_underline = py_bool (dict_get_none fmt ''underline''),
                        par_alignment = align,
                        par_line_spacing =
                          (case py_float lib (dict_get fmt ''lineSpacing'' (JFloat (3 / 2))) of
                             Inl e \<Rightarrow> 3 / 2 | Inr x \<Rightarrow> x)\<rparr>)))"

fun add_paragraphs ::
  "library \<Rightarrow> doc_library \<Rightarrow> (string \<times> json) list \<Rightarrow> string list \<Rightarrow> error + docx_paragraph list" where
  "add_paragraphs lib dl fmt [] = Inr []"
| "add_paragraphs lib dl fmt (para # paras) =
     and_then (add_paragraph lib dl fmt para)
       (\<lambda>p. and_then (add_paragraphs lib dl fmt paras) (\<lambda>ps. Inr (p # ps)))"

record docx_document =
  top_margin :: int
  bottom_margin :: int
  left_margin :: int
  right_margin :: int
  paragraphs :: "docx_paragraph list"
  page_numbers :: bool

definition build_docx_document :: "library \<Rightarrow> doc_library \<Rightarrow> document \<Rightarrow> error + docx_document" where
  "build_docx_document lib dl doc =
     (let fmt = (case formatting doc of None \<Rightarrow> DEFAULT_FORMATTING | Some f \<Rightarrow> f)
      in and_then (as_dict (dict_get fmt ''margins'' (JObj DEFAULT_MARGINS)))
           (\<lambda>margins.
              and_then (add_paragraphs lib dl fmt
                          (split_on (CHR 0x0A) (case content doc of None \<Rightarrow> [] | Some c \<Rightarrow> c)))
                (\<lambda>ps.
                   Inr \<lparr>top_margin = inches lib (dict_get margins ''top'' (JInt 1)),
                        bottom_margin = inches lib (dict_get margins ''bottom'' (JInt 1)),
                        left_margin = inches lib (dict_get margins ''left'' (JInt 1)),
                        right_margin = inches lib (dict_get margins ''right'' (JInt 1)),
                        paragraphs = ps,
                        page_numbers = py_bool (dict_get_none fmt ''pageNumbers'')\<rparr>)))"

subsection \<open>The PDF path\<close>

datatype pdf_element = Paragraph string | Spacer rat rat

record paragraph_style =
  fontName :: string
  fontSize :: rat
  leading :: rat
  alignment :: nat
  textColor :: nat
  underline :: bool

text \<open>What is handed to \<open>SimpleDocTemplate\<close> and to its \<open>build\<close>: margins in points, the
  style of the paragraphs and the list of elements.\<close>

record pdf_document =
  leftMargin :: rat
  rightMargin :: rat
  topMargin :: rat
  bottomMargin :: rat
  style :: paragraph_style
  elements :: "pdf_element list"

text \<open>Lines 183 to 210: the base font of the family and its variant.\<close>

definition font_variant :: "string \<Rightarrow> bool \<Rightarrow> bool \<Rightarrow> string" where
  "font_variant base_font bold italic =
     (if base_font = ''Times-Roman'' then
        (if bold \<and> italic then ''Times-BoldItalic''
         else if bold then ''Times-Bold''
         else if italic then ''Times-Italic''
         else base_font)
      else
        (if bold \<and> italic then base_font @ ''-BoldOblique''
         else if bold then base_font @ ''-Bold''
         else if italic then base_font @ ''-Oblique''
         else base_font))"

text \<open>Lines 232 to 239: one paragraph with a spacer for a line with text, one spacer
  for a blank line.\<close>

fun pdf_elements :: "rat \<Rightarrow> string list \<Rightarrow> pdf_element list" where
  "pdf_elements font_size [] = []"
| "pdf_elements font_size (para # paras) =
     (let text = strip para
      in if text = [] then Spacer 1 (font_size * (6 / 10)) # pdf_elements font_size paras
         else Paragraph (replace text [CHR 0x0A] ''<br/>'')
                # Spacer 1 (font_size * (3 / 10)) # pdf_elements font_size paras)"

definition build_pdf_document :: "library \<Rightarrow> doc_library \<Rightarrow> document \<Rightarrow> error + pdf_document" where
  "build_pdf_document lib dl doc =
     (let fmt = (case formatting doc of None \<Rightarrow> DEFAULT_FORMATTING | Some f \<Rightarrow> f)
      in and_then (as_dict (dict_get fmt ''margins'' (JObj DEFAULT_MARGINS))) (\<lambda>margins.
         and_then (py_float lib (dict_get margins ''left'' (JInt 1))) (\<lambda>left.
         and_then (py_float lib (dict_get margins ''right'' (JInt 1))) (\<lambda>right.
         and_then (py_float lib (dict_get margins ''top'' (JInt 1))) (\<lambda>top.
         and_then (py_float lib (dict_get margins ''bottom'' (JInt 1))) (\<lambda>bottom.
         and_then (lookup_name [(''Arial'', ''Helvetica''), (''Calibri'', ''Helvetica''),
                                (''Georgia'', ''Times-Roman''),
                                (''Times New Roman'', ''Times-Roman'')]
                     (dict_get_none fmt ''fontFamily'') ''Helvetica'') (\<lambda>base_font.
         and_then (py_float lib (dict_get fmt ''lineSpacing'' (JFloat (3 / 2)))) (\<lambda>line_spacing.
         and_then (py_float lib (dict_get fmt ''fontSize'' (JInt 12))) (\<lambda>font_size.
         and_then (lookup_name [(''left'', 0), (''center'', 1), (''right'', 2), (''justify'', 4)]
                     (dict_get fmt ''alignment'' (JStr ''left'')) 0) (\<lambda>align.
         and_then (hex_color dl (dict_get fmt ''fontColor'' (JStr ''#000000''))) (\<lambda>color.
           (let es = pdf_elements font_size
                       (split_on (CHR 0x0A) (case content doc of None \<Rightarrow> [] | Some c \<Rightarrow> c))
            in Inr \<lparr>leftMargin = left * 72,
                    rightMargin = right * 72,
                    topMargin = top * 72,
                    bottomMargin = bottom * 72,
                    style =
                      \<lparr>fontName = font_variant base_font (py_bool (dict_get_none fmt ''bold''))
                                    (py_bool (dict_get_none fmt ''italic'')),
                       fontSize = font_size,
                       leading = font_size * line_spacing,
                       alignment = align,
                       textColor = color,
                       underline = py_bool (dict_get_none fmt ''underline'')\<rparr>,
                    elements = (if es = [] then [Paragraph '' ''] else es)\<rparr>))))))))))))"

text \<open>Document libraries for worked examples: black is the only colour known.\<close>

definition sample_doc_library :: doc_library where
  "sample_doc_library =
     \<lparr>rgb_from_string = (\<lambda>s. if s = ''000000'' then Some 0 else None),
      hex_color = (\<lambda>v. if v = JStr ''#000000'' then Inr 0 else Inl ColorFailed)\<rparr>"

section \<open>Properties of the string operations and of the chunking loop\<close>

lemma length_slice_le: "length (slice s a b) \<le> length s"
  by (simp add: slice_def Let_def)

lemma length_slice_window:
  "0 \<le> a \<Longrightarrow> 0 \<le> b \<Longrightarrow> int (length (slice s a b)) \<le> max 0 (b - a)"
  by (auto simp: slice_def Let_def slice_bound_def min_def max_def)

lemma length_lstrip_le: "length (lstrip s) \<le> length s"
  by (simp add: lstrip_def length_dropWhile_le)

lemma length_rstrip_le: "length (rstrip s) \<le> length s"
  unfolding rstrip_def using length_dropWhile_le [of isspace "rev s"] by simp

lemma length_strip_le: "length (strip s) \<le> length s"
  unfolding strip_def using length_lstrip_le [of "rstrip s"] length_rstrip_le [of s] by linarith

lemma rfind_from_lower: "- 1 \<le> rfind_from s sub k"
  by (induction k) auto

lemma rfind_from_upper: "rfind_from s sub k \<le> int k"
  by (induction k) auto

lemma rfind_from_nonempty:
  "sub \<noteq> [] \<Longrightarrow> k \<le> length s \<Longrightarrow> rfind_from s sub k < int (length s)"
proof (induction k)
  case 0
  then show ?case by (cases s) auto
next
  case (Suc k)
  show ?case
  proof (cases "prefix sub (drop (Suc k) s)")
    case True
    then obtain zs where "drop (Suc k) s = sub @ zs" by (auto simp: prefix_def)
    then have "length (drop (Suc k) s) > 0" using Suc.prems(1) by simp
    then show ?thesis using True by simp
  next
    case False
    then show ?thesis using Suc by simp
  qed
qed

lemma rfind_lt_length: "sub \<noteq> [] \<Longrightarrow> rfind s sub < int (length s)"
  by (simp add: rfind_def rfind_from_nonempty)

lemma chunk_step_final:
  assumes "int (length text) \<le> i + MAX_CHUNK_SIZE"
  shows "chunk_step text i = (slice text i (int (length text)), int (length text))"
  using assms by (simp add: chunk_step_def Let_def min_def)

lemma chunk_step_inner:
  assumes "i + MAX_CHUNK_SIZE < int (length text)"
  shows "chunk_step text i =
    (let chunk = slice text i (i + MAX_CHUNK_SIZE);
         boundary = find_boundary chunk (i + MAX_CHUNK_SIZE)
     in if boundary > i + MAX_CHUNK_SIZE - 1000
        then (slice chunk 0 (boundary + 1), i + boundary + 1 - OVERLAP_SIZE)
        else (chunk, i + MAX_CHUNK_SIZE - OVERLAP_SIZE))"
proof -
  have "min (i + MAX_CHUNK_SIZE) (int (length text)) = i + MAX_CHUNK_SIZE"
    using assms by simp
  then show ?thesis using assms by (simp add: chunk_step_def Let_def)
qed

lemma chunk_step_advances:
  assumes "0 \<le> i" "i < int (length text)"
  shows "i < snd (chunk_step text i)"
proof (cases "i + MAX_CHUNK_SIZE < int (length text)")
  case True
  then show ?thesis using assms
    by (simp add: chunk_step_inner Let_def MAX_CHUNK_SIZE_def OVERLAP_SIZE_def)
next
  case False
  then show ?thesis using assms by (simp add: chunk_step_final)
qed

lemma chunk_step_length:
  assumes "0 \<le> i"
  shows "int (length (fst (chunk_step text i))) \<le> MAX_CHUNK_SIZE"
proof (cases "i + MAX_CHUNK_SIZE < int (length text)")
  case True
  have a: "int (length (slice text i (i + MAX_CHUNK_SIZE))) \<le> MAX_CHUNK_SIZE"
    using length_slice_window [OF assms, of "i + MAX_CHUNK_SIZE" "text"] assms
    by (simp add: MAX_CHUNK_SIZE_def)
  have b: "int (length (slice (slice text i (i + MAX_CHUNK_SIZE)) 0 b)) \<le> MAX_CHUNK_SIZE" for b
    using length_slice_le [of "slice text i (i + MAX_CHUNK_SIZE)" 0 b] a by linarith
  show ?thesis using True a b by (simp add: chunk_step_inner Let_def)
next
  case False
  have "int (length (slice text i (int (length text)))) \<le> max 0 (int (length text) - i)"
    using length_slice_window [OF assms, of "int (length text)" "text"] by simp
  then show ?thesis using False assms by (simp add: chunk_step_final MAX_CHUNK_SIZE_def)
qed

lemma chunk_step_window_end:
  assumes "0 \<le> i" "i < int (length text)"
  shows "i + int (length (fst (chunk_step text i))) - OVERLAP_SIZE \<le> snd (chunk_step text i)"
proof (cases "i + MAX_CHUNK_SIZE < int (length text)")
  case True
  have a: "int (length (slice text i (i + MAX_CHUNK_SIZE))) \<le> MAX_CHUNK_SIZE"
    using length_slice_window [OF assms(1), of "i + MAX_CHUNK_SIZE" "text"] assms
    by (simp add: MAX_CHUNK_SIZE_def)
  have b: "0 \<le> b \<Longrightarrow> int (length (slice (slice text i (i + MAX_CHUNK_SIZE)) 0 b)) \<le> b" for b
    using length_slice_window [of 0 b "slice text i (i + MAX_CHUNK_SIZE)"] by simp
  show ?thesis
  proof (cases "find_boundary (slice text i (i + MAX_CHUNK_SIZE)) (i + MAX_CHUNK_SIZE)
                  > i + MAX_CHUNK_SIZE - 1000")
    case t: True
    then have "0 \<le> find_boundary (slice text i (i + MAX_CHUNK_SIZE)) (i + MAX_CHUNK_SIZE) + 1"
      using assms by (simp add: MAX_CHUNK_SIZE_def)
    from b [OF this] show ?thesis using True t by (simp add: chunk_step_inner Let_def)
  next
    case f: False
    then show ?thesis using True a by (simp add: chunk_step_inner Let_def)
  qed
next
  case False
  have "int (length (slice text i (int (length text)))) \<le> max 0 (int (length text) - i)"
    using length_slice_window [OF assms(1), of "int (length text)" "text"] by simp
  then show ?thesis using False assms by (simp add: chunk_step_final OVERLAP_SIZE_def)
qed

lemma chunk_loop_total:
  assumes "0 \<le> i"
  shows "\<exists>r. chunk_loop text i chunks windows = Some r"
  using assms
proof (induction "nat (int (length text) - i)" arbitrary: i chunks windows rule: less_induct)
  case less
  show ?case
  proof (cases "i < int (length text)")
    case True
    let ?j = "snd (chunk_step text i)"
    have adv: "i < ?j" using chunk_step_advances [OF less.prems True] .
    then have "nat (int (length text) - ?j) < nat (int (length text) - i)" "0 \<le> ?j"
      using True less.prems by simp_all
    from less.hyps [OF this] show ?thesis
      using True by (subst chunk_loop.simps) simp
  next
    case False
    then show ?thesis by (subst chunk_loop.simps) simp
  qed
qed


lemma chunk_loop_inv:
  assumes "0 \<le> i" "chunk_loop text i chunks windows = Some (cs, ws)"
    "\<forall>c\<in>set chunks. int (length c) \<le> MAX_CHUNK_SIZE"
    "\<forall>k. Suc k < length windows \<longrightarrow>
        window_overlap (windows ! k) (windows ! Suc k) \<le> OVERLAP_SIZE"
    "windows \<noteq> [] \<longrightarrow>
        fst (last windows) + int (length (snd (last windows))) - OVERLAP_SIZE \<le> i"
  shows "(\<forall>c\<in>set cs. int (length c) \<le> MAX_CHUNK_SIZE) \<and>
    (\<forall>k. Suc k < length ws \<longrightarrow> window_overlap (ws ! k) (ws ! Suc k) \<le> OVERLAP_SIZE)"
  using assms
proof (induction "nat (int (length text) - i)" arbitrary: i chunks windows rule: less_induct)
  case less
  show ?case
  proof (cases "i < int (length text)")
    case True
    let ?c = "fst (chunk_step text i)"
    let ?j = "snd (chunk_step text i)"
    let ?chunks = "if strip ?c \<noteq> [] then chunks @ [strip ?c] else chunks"
    let ?windows = "windows @ [(i, ?c)]"
    have adv: "i < ?j" using chunk_step_advances [OF less.prems(1) True] .
    then have m: "nat (int (length text) - ?j) < nat (int (length text) - i)" and j: "0 \<le> ?j"
      using True less.prems(1) by simp_all
    have run: "chunk_loop text ?j ?chunks ?windows = Some (cs, ws)"
      using less.prems(2) True by (subst (asm) chunk_loop.simps) simp
    have "int (length (strip ?c)) \<le> MAX_CHUNK_SIZE"
      using chunk_step_length [OF less.prems(1), of "text"] length_strip_le [of ?c] by linarith
    then have c: "\<forall>c\<in>set ?chunks. int (length c) \<le> MAX_CHUNK_SIZE"
      using less.prems(3) by simp
    have w: "\<forall>k. Suc k < length ?windows \<longrightarrow>
        window_overlap (?windows ! k) (?windows ! Suc k) \<le> OVERLAP_SIZE"
    proof (intro allI impI)
      fix k assume k: "Suc k < length ?windows"
      show "window_overlap (?windows ! k) (?windows ! Suc k) \<le> OVERLAP_SIZE"
      proof (cases "Suc k < length windows")
        case True
        then show ?thesis using less.prems(4) by (simp add: nth_append)
      next
        case False
        then have eq: "Suc k = length windows" using k by simp
        then have ne: "windows \<noteq> []" by auto
        have "windows ! k = last windows" using eq [symmetric] ne by (simp add: last_conv_nth)
        then have "?windows ! k = last windows" "?windows ! Suc k = (i, ?c)"
          using eq by (simp_all add: nth_append)
        then show ?thesis using less.prems(5) ne
          by (simp add: window_overlap_def OVERLAP_SIZE_def)
      qed
    qed
    have l: "?windows \<noteq> [] \<longrightarrow>
        fst (last ?windows) + int (length (snd (last ?windows))) - OVERLAP_SIZE \<le> ?j"
      using chunk_step_window_end [OF less.prems(1) True] by simp
    show ?thesis using less.hyps [OF m j run c w l] .
  next
    case False
    then have "chunks = cs" "windows = ws"
      using less.prems(2) by (subst (asm) chunk_loop.simps, simp)+
    then show ?thesis using less.prems(3,4) by simp
  qed
qed

lemma rfind_from_absent:
  assumes "sub \<noteq> []" "hd sub \<notin> set s"
  shows "rfind_from s sub k = - 1"
proof -
  have "\<not> prefix sub (drop n s)" for n
  proof
    assume "prefix sub (drop n s)"
    then obtain zs where "drop n s = sub @ zs" by (auto simp: prefix_def)
    then have "hd sub \<in> set (drop n s)" using assms(1) by (cases sub) auto
    then show False using assms(2) by (meson in_set_dropD)
  qed
  note np = this
  show ?thesis
  proof (induction k)
    case 0
    then show ?case using np [of 0] by simp
  next
    case (Suc k)
    then show ?case using np [of "Suc k"] by simp
  qed
qed

lemma rfind_absent: "sub \<noteq> [] \<Longrightarrow> hd sub \<notin> set s \<Longrightarrow> rfind s sub = - 1"
  by (simp add: rfind_def rfind_from_absent)

lemma rfind_from_last_char:
  assumes "c \<notin> set ys" "length xs \<le> k"
  shows "rfind_from (xs @ c # ys) [c] k = int (length xs)"
  using assms(2)
proof (induction k)
  case 0
  then show ?case by simp
next
  case (Suc k)
  show ?case
  proof (cases "Suc k = length xs")
    case True
    then show ?thesis using True [symmetric] by simp
  next
    case False
    then have le: "length xs \<le> k" using Suc.prems by simp
    have "drop (Suc k) (xs @ c # ys) = drop (k - length xs) ys"
      using le by (simp add: Suc_diff_le)
    moreover have "\<not> prefix [c] (drop (k - length xs) ys)"
    proof
      assume "prefix [c] (drop (k - length xs) ys)"
      then have "c \<in> set (drop (k - length xs) ys)" by (auto simp: prefix_def)
      then show False using assms(1) by (meson in_set_dropD)
    qed
    ultimately show ?thesis using Suc.IH [OF le] by simp
  qed
qed

lemma rfind_last_char: "c \<notin> set ys \<Longrightarrow> rfind (xs @ c # ys) [c] = int (length xs)"
  by (simp add: rfind_def rfind_from_last_char)

lemma find_boundary_none:
  assumes "int (length chunk) + 999 \<le> chunk_end"
  shows "find_boundary chunk chunk_end = - 1"
proof -
  have "rfind chunk sub \<le> chunk_end - 1000" if "sub \<noteq> []" for sub
    using rfind_lt_length [OF that, of chunk] assms by linarith
  from this [of "''?''"] this [of "[CHR 0x0A, CHR 0x0A]"] this [of "[CHR 0x0A]"] this [of "''.''"]
  show ?thesis by (simp add: find_boundary_def Let_def)
qed

lemma find_boundary_absent:
  assumes "CHR ''?'' \<notin> set chunk" "CHR 0x0A \<notin> set chunk" "CHR ''.'' \<notin> set chunk"
  shows "find_boundary chunk chunk_end = - 1"
  using assms by (simp add: find_boundary_def Let_def rfind_absent)

lemma chunk_step_later_window:
  assumes "999 \<le> i" "i + MAX_CHUNK_SIZE < int (length text)"
  shows "chunk_step text i = (slice text i (i + MAX_CHUNK_SIZE), i + MAX_CHUNK_SIZE - OVERLAP_SIZE)"
proof -
  have "int (length (slice text i (i + MAX_CHUNK_SIZE))) \<le> MAX_CHUNK_SIZE"
    using length_slice_window [of i "i + MAX_CHUNK_SIZE" "text"] assms(1)
    by (simp add: MAX_CHUNK_SIZE_def)
  then have "find_boundary (slice text i (i + MAX_CHUNK_SIZE)) (i + MAX_CHUNK_SIZE) = - 1"
    using assms(1) by (intro find_boundary_none) simp
  then show ?thesis using assms by (simp add: chunk_step_inner Let_def MAX_CHUNK_SIZE_def)
qed

lemma slice_replicate:
  "0 \<le> a \<Longrightarrow> a \<le> b \<Longrightarrow> b \<le> int n \<Longrightarrow> slice (replicate n c) a b = replicate (nat (b - a)) c"
proof -
  assume a: "0 \<le> a" "a \<le> b" "b \<le> int n"
  then have "nat b \<le> n" "nat a \<le> nat b" "nat b - nat a \<le> n - nat a" by linarith+
  then show ?thesis using a
    by (simp add: slice_def slice_bound_def Let_def min_def nat_diff_distrib)
qed

lemma strip_replicate: "\<not> isspace c \<Longrightarrow> strip (replicate n c) = replicate n c"
  by (cases n) (simp_all add: strip_def lstrip_def rstrip_def replicate_append_same)


















section \<open>The claims about chunking\<close>

lemma not_space_a: "\<not> isspace (CHR ''a'')"
  by (simp add: isspace_def)

lemma chunk_step_example_first:
  "chunk_step (replicate 6001 (CHR ''a'')) 0 = (replicate 6000 (CHR ''a''), 5200)"
proof -
  have "find_boundary (replicate 6000 (CHR ''a'')) 6000 = - 1"
    by (rule find_boundary_absent) simp_all
  then show ?thesis
    by (simp add: chunk_step_inner MAX_CHUNK_SIZE_def OVERLAP_SIZE_def slice_replicate Let_def)
qed

lemma chunk_step_example_last:
  "chunk_step (replicate 6001 (CHR ''a'')) 5200 = (replicate 801 (CHR ''a''), 6001)"
  by (simp add: chunk_step_final MAX_CHUNK_SIZE_def slice_replicate)

lemma chunk_loop_example:
  "chunk_loop (replicate 6001 (CHR ''a'')) 0 [] [] =
     Some ([replicate 6000 (CHR ''a''), replicate 801 (CHR ''a'')],
           [(0, replicate 6000 (CHR ''a'')), (5200, replicate 801 (CHR ''a''))])"
  apply (subst chunk_loop.simps)
  apply (simp add: chunk_step_example_first strip_replicate not_space_a)
  apply (subst chunk_loop.simps)
  apply (simp add: chunk_step_example_last strip_replicate not_space_a)
  apply (subst chunk_loop.simps)
  apply simp
  done

text \<open>
  Claim C3. The chunking loop returns for every text: started at index 0 it yields a
  finite list of chunks. At every window start \<open>i\<close> inside the text the next start is
  strictly greater: the end of the text on the last window; otherwise
  \<open>i + (boundary + 1 - OVERLAP_SIZE)\<close> with a positive increment when a boundary past
  \<open>chunk_end - 1000\<close> was chosen, and \<open>i + 5200\<close> when none was.
\<close>

theorem chunking_terminates:
  "(\<exists>r. chunk_loop text 0 [] [] = Some r) \<and>
   (\<forall>i. 0 \<le> i \<and> i < int (length text) \<longrightarrow>
      i < snd (chunk_step text i) \<and>
      (if i + MAX_CHUNK_SIZE < int (length text)
       then (let boundary = find_boundary (slice text i (i + MAX_CHUNK_SIZE)) (i + MAX_CHUNK_SIZE)
             in if boundary > i + MAX_CHUNK_SIZE - 1000
                then snd (chunk_step text i) = i + (boundary + 1 - OVERLAP_SIZE) \<and>
                     0 < boundary + 1 - OVERLAP_SIZE
                else snd (chunk_step text i) = i + (MAX_CHUNK_SIZE - OVERLAP_SIZE) \<and>
                     MAX_CHUNK_SIZE - OVERLAP_SIZE = 5200)
       else snd (chunk_step text i) = int (length text)))"
proof (intro conjI allI impI)
  show "\<exists>r. chunk_loop text 0 [] [] = Some r" by (rule chunk_loop_total) simp
next
  fix i assume "0 \<le> i \<and> i < int (length text)"
  then show "i < snd (chunk_step text i)" by (simp add: chunk_step_advances)
next
  fix i assume a: "0 \<le> i \<and> i < int (length text)"
  show "if i + MAX_CHUNK_SIZE < int (length text)
       then (let boundary = find_boundary (slice text i (i + MAX_CHUNK_SIZE)) (i + MAX_CHUNK_SIZE)
             in if boundary > i + MAX_CHUNK_SIZE - 1000
                then snd (chunk_step text i) = i + (boundary + 1 - OVERLAP_SIZE) \<and>
                     0 < boundary + 1 - OVERLAP_SIZE
                else snd (chunk_step text i) = i + (MAX_CHUNK_SIZE - OVERLAP_SIZE) \<and>
                     MAX_CHUNK_SIZE - OVERLAP_SIZE = 5200)
       else snd (chunk_step text i) = int (length text)"
  proof (cases "i + MAX_CHUNK_SIZE < int (length text)")
    case True
    then show ?thesis using a
      by (simp add: chunk_step_inner Let_def MAX_CHUNK_SIZE_def OVERLAP_SIZE_def)
  next
    case False
    then show ?thesis by (simp add: chunk_step_final)
  qed
qed

theorem chunking_terminates_witness:
  "(\<exists>r. chunk_loop (replicate 6001 (CHR ''a'')) 0 [] [] = Some r) \<and>
   (0::int) < snd (chunk_step (replicate 6001 (CHR ''a'')) 0) \<and>
   snd (chunk_step (replicate 6001 (CHR ''a'')) 0) = 5200"
proof -
  have h: "(0::int) \<le> 0 \<and> 0 < int (length (replicate 6001 (CHR ''a'')))" by simp
  have b: "find_boundary (replicate 6000 (CHR ''a'')) 6000 = - 1"
    by (rule find_boundary_absent) simp_all
  note t = chunking_terminates [of "replicate 6001 (CHR ''a'')"]
  from t have e: "\<exists>r. chunk_loop (replicate 6001 (CHR ''a'')) 0 [] [] = Some r"
    by (rule conjunct1)
  from t [THEN conjunct2, THEN spec, of 0] h b e show ?thesis
    by (simp add: MAX_CHUNK_SIZE_def OVERLAP_SIZE_def slice_replicate)
qed

text \<open>
  Claim C2. A text of at most 6000 characters gives exactly one chunk, the text itself.
  A longer text gives chunks of at most 6000 characters each, and any two consecutive
  windows of the loop share at most 800 positions of the text.
\<close>

theorem chunking_bounds:
  "(int (length text) \<le> MAX_CHUNK_SIZE \<longrightarrow> chunk_text text = Some [text]) \<and>
   (int (length text) > MAX_CHUNK_SIZE \<longrightarrow>
      (\<exists>chunks windows.
         chunk_loop text 0 [] [] = Some (chunks, windows) \<and>
         chunk_text text = Some chunks \<and>
         (\<forall>c\<in>set chunks. int (length c) \<le> MAX_CHUNK_SIZE) \<and>
         (\<forall>k. Suc k < length windows \<longrightarrow>
            window_overlap (windows ! k) (windows ! Suc k) \<le> OVERLAP_SIZE)))"
proof (intro conjI impI)
  assume "int (length text) \<le> MAX_CHUNK_SIZE"
  then show "chunk_text text = Some [text]" by (simp add: chunk_text_def)
next
  assume long: "int (length text) > MAX_CHUNK_SIZE"
  obtain chunks windows where run: "chunk_loop text 0 [] [] = Some (chunks, windows)"
    using chunk_loop_total [of 0 "text" "[]" "[]"] by auto
  have "(\<forall>c\<in>set chunks. int (length c) \<le> MAX_CHUNK_SIZE) \<and>
    (\<forall>k. Suc k < length windows \<longrightarrow>
       window_overlap (windows ! k) (windows ! Suc k) \<le> OVERLAP_SIZE)"
    by (rule chunk_loop_inv [OF _ run]) simp_all
  then show "\<exists>chunks windows.
         chunk_loop text 0 [] [] = Some (chunks, windows) \<and>
         chunk_text text = Some chunks \<and>
         (\<forall>c\<in>set chunks. int (length c) \<le> MAX_CHUNK_SIZE) \<and>
         (\<forall>k. Suc k < length windows \<longrightarrow>
            window_overlap (windows ! k) (windows ! Suc k) \<le> OVERLAP_SIZE)"
    using run long by (simp add: chunk_text_def)
qed

theorem chunking_bounds_witness:
  "chunk_text ''What is a cell?'' = Some [''What is a cell?''] \<and>
   chunk_text (replicate 6001 (CHR ''a''))
     = Some [replicate 6000 (CHR ''a''), replicate 801 (CHR ''a'')] \<and>
   int (length (replicate 6000 (CHR ''a''))) \<le> MAX_CHUNK_SIZE \<and>
   int (length (replicate 801 (CHR ''a''))) \<le> MAX_CHUNK_SIZE \<and>
   window_overlap (0, replicate 6000 (CHR ''a'')) (5200, replicate 801 (CHR ''a''))
     \<le> OVERLAP_SIZE"
proof -
  have short: "int (length ''What is a cell?'') \<le> MAX_CHUNK_SIZE"
    by (simp add: MAX_CHUNK_SIZE_def)
  have long: "int (length (replicate 6001 (CHR ''a''))) > MAX_CHUNK_SIZE"
    by (simp add: MAX_CHUNK_SIZE_def)
  from chunking_bounds [of "''What is a cell?''"] short
  have 1: "chunk_text ''What is a cell?'' = Some [''What is a cell?'']" by blast
  from chunking_bounds [of "replicate 6001 (CHR ''a'')"] long
  obtain chunks windows where
    r: "chunk_loop (replicate 6001 (CHR ''a'')) 0 [] [] = Some (chunks, windows)"
    and t: "chunk_text (replicate 6001 (CHR ''a'')) = Some chunks"
    and c: "\<forall>c\<in>set chunks. int (length c) \<le> MAX_CHUNK_SIZE"
    and w: "\<forall>k. Suc k < length windows \<longrightarrow>
            window_overlap (windows ! k) (windows ! Suc k) \<le> OVERLAP_SIZE"
    by blast
  from r have cs: "chunks = [replicate 6000 (CHR ''a''), replicate 801 (CHR ''a'')]"
    and ws: "windows = [(0, replicate 6000 (CHR ''a'')), (5200, replicate 801 (CHR ''a''))]"
    by (simp_all add: chunk_loop_example)
  from w [rule_format, of 0] have "window_overlap (windows ! 0) (windows ! Suc 0) \<le> OVERLAP_SIZE"
    by (simp add: ws)
  then show ?thesis using 1 t c unfolding cs ws by simp
qed

text \<open>
  Claim C1, evaluated on a text of 15001 characters whose only boundary character is a
  question mark at index 11000. The first window finds no boundary and the second
  window starts at 5200. In the second window the question mark is at position 5800 of
  6000, inside the final 1000 characters, yet the window is cut at the raw limit and the
  third window starts at 10400: \<open>rfind\<close> counts from the start of the window while
  \<open>chunk_end - 1000\<close> counts from the start of the text.
\<close>

theorem boundary_missed_after_first_window:
  "chunk_step (replicate 11000 (CHR ''a'') @ ''?'' @ replicate 4000 (CHR ''a'')) 0
     = (replicate 6000 (CHR ''a''), 5200) \<and>
   slice (replicate 11000 (CHR ''a'') @ ''?'' @ replicate 4000 (CHR ''a'')) 5200 11200
     = replicate 5800 (CHR ''a'') @ ''?'' @ replicate 199 (CHR ''a'') \<and>
   rfind (replicate 5800 (CHR ''a'') @ ''?'' @ replicate 199 (CHR ''a'')) ''?'' = 5800 \<and>
   chunk_step (replicate 11000 (CHR ''a'') @ ''?'' @ replicate 4000 (CHR ''a'')) 5200
     = (replicate 5800 (CHR ''a'') @ ''?'' @ replicate 199 (CHR ''a''), 10400)"
proof -
  let ?t = "replicate 11000 (CHR ''a'') @ ''?'' @ replicate 4000 (CHR ''a'')"
  have s0: "slice ?t 0 6000 = replicate 6000 (CHR ''a'')"
    by (simp add: slice_def slice_bound_def Let_def)
  have s1: "slice ?t 5200 11200 = replicate 5800 (CHR ''a'') @ ''?'' @ replicate 199 (CHR ''a'')"
    by (simp add: slice_def slice_bound_def Let_def)
  have b0: "find_boundary (replicate 6000 (CHR ''a'')) 6000 = - 1"
    by (rule find_boundary_absent) simp_all
  have 1: "chunk_step ?t 0 = (replicate 6000 (CHR ''a''), 5200)"
    using s0 b0 by (simp add: chunk_step_inner MAX_CHUNK_SIZE_def OVERLAP_SIZE_def Let_def)
  have 2: "rfind (replicate 5800 (CHR ''a'') @ ''?'' @ replicate 199 (CHR ''a'')) ''?'' = 5800"
    using rfind_last_char [of "CHR ''?''" "replicate 199 (CHR ''a'')" "replicate 5800 (CHR ''a'')"]
    by simp
  have 3: "chunk_step ?t 5200 = (slice ?t 5200 11200, 10400)"
    using chunk_step_later_window [of 5200 ?t]
    by (simp add: MAX_CHUNK_SIZE_def OVERLAP_SIZE_def)
  show ?thesis using 1 2 3 s1 by simp
qed


section \<open>Properties of parsing and normalization\<close>













lemma strip_id:
  assumes "s \<noteq> []" "\<not> isspace (hd s)" "\<not> isspace (last s)"
  shows "strip s = s"
proof -
  have "dropWhile isspace (rev s) = rev s"
    using assms(1,3) by (cases "rev s") (auto simp: last_rev [symmetric] simp del: last_rev)
  then have "rstrip s = s" by (simp add: rstrip_def)
  moreover have "dropWhile isspace s = s" using assms(1,2) by (cases s) auto
  ultimately show ?thesis by (simp add: strip_def lstrip_def)
qed

















section \<open>Properties of extraction and of the handler\<close>

text \<open>
  Claim C6. \<open>extract_text_from_file\<close> raises the not-found error when the path does not
  exist, and the unsupported-type error when the path exists and the extension of the
  file name, in lower case as the code compares it, is none of \<open>.pdf\<close>, \<open>.docx\<close>,
  \<open>.doc\<close>, \<open>.txt\<close>.
\<close>

theorem extraction_errors:
  "(\<not> path_exists fs file_path \<longrightarrow>
      extract_text_from_file fs file_path name = Inl FileNotFound) \<and>
   (path_exists fs file_path \<and>
      lower (snd (splitext name)) \<notin> {''.pdf'', ''.docx'', ''.doc'', ''.txt''} \<longrightarrow>
      extract_text_from_file fs file_path name
        = Inl (UnsupportedFileType (lower (snd (splitext name)))))"
  by (simp add: extract_text_from_file_def Let_def)

theorem extraction_errors_witness:
  "extract_text_from_file sample_files ''/uploads/gone.pdf'' ''gone.pdf'' = Inl FileNotFound \<and>
   extract_text_from_file sample_files ''/uploads/q.txt'' ''notes.xyz''
     = Inl (UnsupportedFileType ''.xyz'')"
proof -
  have a: "\<not> path_exists sample_files ''/uploads/gone.pdf''" by code_simp
  have b: "path_exists sample_files ''/uploads/q.txt''" by code_simp
  have c: "lower (snd (splitext ''notes.xyz'')) = ''.xyz''" by code_simp
  from extraction_errors [of sample_files "''/uploads/gone.pdf''" "''gone.pdf''"] a
  have 1: "extract_text_from_file sample_files ''/uploads/gone.pdf'' ''gone.pdf'' = Inl FileNotFound"
    by blast
  from extraction_errors [of sample_files "''/uploads/q.txt''" "''notes.xyz''"] b c
  have 2: "extract_text_from_file sample_files ''/uploads/q.txt'' ''notes.xyz''
     = Inl (UnsupportedFileType ''.xyz'')" by simp
  show ?thesis using 1 2 by blast
qed





section \<open>Properties of the user store\<close>

lemma find_Some_split:
  assumes "List.find P xs = Some x"
  shows "\<exists>ys zs. xs = ys @ x # zs \<and> P x \<and> (\<forall>y\<in>set ys. \<not> P y)"
  using assms
proof (induction xs)
  case Nil
  then show ?case by simp
next
  case (Cons a xs)
  show ?case
  proof (cases "P a")
    case True
    then have "a = x" using Cons.prems by simp
    then show ?thesis using True by (intro exI [of _ "[]"] exI [of _ xs]) auto
  next
    case False
    then have "List.find P xs = Some x" using Cons.prems by simp
    from Cons.IH [OF this] obtain ys zs where
      "xs = ys @ x # zs" "P x" "\<forall>y\<in>set ys. \<not> P y" by blast
    then show ?thesis using False by (intro exI [of _ "a # ys"] exI [of _ zs]) auto
  qed
qed

lemma find_first: "P x \<Longrightarrow> \<forall>y\<in>set ys. \<not> P y \<Longrightarrow> List.find P (ys @ x # zs) = Some x"
  by (induction ys) auto

lemma find_absent: "\<forall>x\<in>set xs. \<not> P x \<Longrightarrow> List.find P xs = None"
  by (induction xs) auto

lemma update_result:
  assumes wf: "wf_users (ys @ ex # zs)"
    and c: "clerk_id ex = c"
  shows "create_or_update_user (ys @ ex # zs) now c e f l n i =
    (if e \<in> email ` set (ys @ zs) then (ys @ ex # zs, Inl IntegrityError)
     else (ys @ ex\<lparr>email := e, first_name := f, last_name := l, full_name := n,
                   image_url := i, updated_at := now\<rparr> # zs,
           Inr (Some (ex\<lparr>email := e, first_name := f, last_name := l, full_name := n,
                   image_url := i, updated_at := now\<rparr>))))"
proof -
  let ?U = "\<lambda>r::user_row. r\<lparr>email := e, first_name := f, last_name := l, full_name := n,
                   image_url := i, updated_at := now\<rparr>"
  have others: "\<forall>r\<in>set (ys @ zs). clerk_id r \<noteq> c"
    using wf c by (auto simp: wf_users_def) (metis image_eqI)+
  have ids: "\<forall>r\<in>set ys. row_id r \<noteq> row_id ex"
    using wf by (auto simp: wf_users_def) (metis image_eqI)
  have f: "List.find (\<lambda>r. clerk_id r = c) (ys @ ex # zs) = Some ex"
    using others c by (intro find_first) auto
  have m: "map (\<lambda>r. if clerk_id r = c then ?U r else r) (ys @ ex # zs) = ys @ ?U ex # zs"
    using others c by (auto intro: map_idI)
  have d: "distinct (map email (ys @ ?U ex # zs)) \<longleftrightarrow> e \<notin> email ` set (ys @ zs)"
    using wf by (auto simp: wf_users_def)
  have g: "List.find (\<lambda>r. row_id r = row_id ex) (ys @ ?U ex # zs) = Some (?U ex)"
    using ids by (intro find_first) auto
  show ?thesis
    by (simp only: create_or_update_user_def f option.case Let_def m d g) simp
qed

lemma first_call:
  assumes wf: "wf_users users"
    and call: "create_or_update_user users now c e f l n i = (users1, Inr (Some r1))"
  shows "\<exists>ys zs. users1 = ys @ r1 # zs \<and> wf_users users1 \<and> clerk_id r1 = c \<and> email r1 = e"
proof (cases "List.find (\<lambda>r. clerk_id r = c) users")
  case None
  then have no: "\<forall>r\<in>set users. clerk_id r \<noteq> c" by (auto simp: find_None_iff)
  let ?new = "\<lparr>row_id = c, clerk_id = c, email = e, first_name = f, last_name = l,
                full_name = n, image_url = i, created_at = now, updated_at = now\<rparr>"
  have ok: "\<not> (c \<in> set (map row_id users) \<or> c \<in> set (map clerk_id users)
               \<or> e \<in> set (map email users))"
    using call None by (auto simp: create_or_update_user_def Let_def split: if_splits)
  then have "List.find (\<lambda>r. row_id r = c) (users @ [?new]) = Some ?new"
    by (intro find_first) auto
  then have "users1 = users @ [?new]" "r1 = ?new"
    using call None ok by (auto simp: create_or_update_user_def Let_def)
  moreover have "wf_users (users @ [?new])"
    using wf ok by (auto simp: wf_users_def)
  ultimately show ?thesis by auto
next
  case (Some ex)
  from find_Some_split [OF Some] obtain ys zs where
    s: "users = ys @ ex # zs" and c: "clerk_id ex = c" by blast
  let ?r = "ex\<lparr>email := e, first_name := f, last_name := l, full_name := n,
               image_url := i, updated_at := now\<rparr>"
  have r: "create_or_update_user (ys @ ex # zs) now c e f l n i =
    (if e \<in> email ` set (ys @ zs) then (ys @ ex # zs, Inl IntegrityError)
     else (ys @ ?r # zs, Inr (Some ?r)))"
    using update_result [OF wf [unfolded s] c] .
  then have free: "e \<notin> email ` set (ys @ zs)" and "users1 = ys @ ?r # zs" "r1 = ?r"
    using call unfolding s by (auto split: if_splits)
  moreover have "wf_users (ys @ ?r # zs)"
    using wf free unfolding s by (auto simp: wf_users_def)
  ultimately show ?thesis using c by auto
qed

text \<open>
  Claim C9, amended. On a table that satisfies the constraints of the schema, after a
  first call for a \<open>clerk_id\<close> that returned a row, the table has exactly one row for
  that \<open>clerk_id\<close>. A second call with a different email that no row of the table
  holds changes that row in place: email, name and image fields and \<open>updated_at\<close> are
  set, every other row and the number of rows stay the same, there is still exactly one
  row for the \<open>clerk_id\<close>, and its \<open>id\<close> is the one of the first call. A second call
  with an email that another row holds raises the integrity error and leaves the table
  as it was.
\<close>

theorem upsert_twice:
  assumes "wf_users users"
    and "create_or_update_user users t1 c e1 f1 l1 n1 i1 = (users1, Inr (Some r1))"
    and "e2 \<noteq> e1"
  shows "(e2 \<notin> email ` set users1 \<longrightarrow>
            create_or_update_user users1 t2 c e2 f2 l2 n2 i2 =
              (map (\<lambda>r. if clerk_id r = c
                        then r1\<lparr>email := e2, first_name := f2, last_name := l2, full_name := n2,
                               image_url := i2, updated_at := t2\<rparr>
                        else r) users1,
               Inr (Some (r1\<lparr>email := e2, first_name := f2, last_name := l2, full_name := n2,
                               image_url := i2, updated_at := t2\<rparr>))) \<and>
            filter (\<lambda>r. clerk_id r = c) (fst (create_or_update_user users1 t2 c e2 f2 l2 n2 i2))
              = [r1\<lparr>email := e2, first_name := f2, last_name := l2, full_name := n2,
                    image_url := i2, updated_at := t2\<rparr>] \<and>
            row_id (r1\<lparr>email := e2, first_name := f2, last_name := l2, full_name := n2,
                       image_url := i2, updated_at := t2\<rparr>) = row_id r1) \<and>
         (e2 \<in> email ` set users1 \<longrightarrow>
            create_or_update_user users1 t2 c e2 f2 l2 n2 i2 = (users1, Inl IntegrityError)) \<and>
         filter (\<lambda>r. clerk_id r = c) users1 = [r1] \<and>
         length (fst (create_or_update_user users1 t2 c e2 f2 l2 n2 i2)) = length users1"
proof -
  let ?r2 = "r1\<lparr>email := e2, first_name := f2, last_name := l2, full_name := n2,
               image_url := i2, updated_at := t2\<rparr>"
  from first_call [OF assms(1,2)] obtain ys zs where
    s: "users1 = ys @ r1 # zs" and wf1: "wf_users users1" and c: "clerk_id r1 = c"
    and e: "email r1 = e1" by blast
  have others: "\<forall>r\<in>set (ys @ zs). clerk_id r \<noteq> c"
    using wf1 c unfolding s by (auto simp: wf_users_def) (metis image_eqI)+
  have r: "create_or_update_user users1 t2 c e2 f2 l2 n2 i2 =
    (if e2 \<in> email ` set (ys @ zs) then (users1, Inl IntegrityError)
     else (ys @ ?r2 # zs, Inr (Some ?r2)))"
    unfolding s using update_result [OF wf1 [unfolded s] c] .
  have mem: "e2 \<in> email ` set users1 \<longleftrightarrow> e2 \<in> email ` set (ys @ zs)"
    using e assms(3) unfolding s by auto
  have m: "map (\<lambda>r. if clerk_id r = c then ?r2 else r) users1 = ys @ ?r2 # zs"
    unfolding s using others c by (auto intro: map_idI)
  have f1: "filter (\<lambda>r. clerk_id r = c) users1 = [r1]"
    unfolding s using others c by (auto simp: filter_empty_conv)
  have f2: "filter (\<lambda>r. clerk_id r = c) (ys @ ?r2 # zs) = [?r2]"
    using others c by (auto simp: filter_empty_conv)
  show ?thesis
    unfolding r mem m using f1 f2 by (simp add: s)
qed

text \<open>
  Claim C9 as stated fails when the new email belongs to another user: the first call
  for \<open>user_a\<close> inserts the row, the second call with the email of \<open>user_b\<close> raises
  the integrity error of the \<open>UNIQUE\<close> column, and the email of the row is not updated.
\<close>

theorem upsert_email_taken:
  "create_or_update_user
     [\<lparr>row_id = ''user_b'', clerk_id = ''user_b'', email = ''b@x.org'', first_name = None,
       last_name = None, full_name = None, image_url = None, created_at = 1, updated_at = 1\<rparr>]
     2 ''user_a'' ''a@x.org'' (Some ''Ann'') None None None
   = ([\<lparr>row_id = ''user_b'', clerk_id = ''user_b'', email = ''b@x.org'', first_name = None,
       last_name = None, full_name = None, image_url = None, created_at = 1, updated_at = 1\<rparr>,
       \<lparr>row_id = ''user_a'', clerk_id = ''user_a'', email = ''a@x.org'', first_name = Some ''Ann'',
       last_name = None, full_name = None, image_url = None, created_at = 2, updated_at = 2\<rparr>],
      Inr (Some \<lparr>row_id = ''user_a'', clerk_id = ''user_a'', email = ''a@x.org'', first_name = Some ''Ann'',
       last_name = None, full_name = None, image_url = None, created_at = 2, updated_at = 2\<rparr>)) \<and>
   create_or_update_user
     [\<lparr>row_id = ''user_b'', clerk_id = ''user_b'', email = ''b@x.org'', first_name = None,
       last_name = None, full_name = None, image_url = None, created_at = 1, updated_at = 1\<rparr>,
      \<lparr>row_id = ''user_a'', clerk_id = ''user_a'', email = ''a@x.org'', first_name = Some ''Ann'',
       last_name = None, full_name = None, image_url = None, created_at = 2, updated_at = 2\<rparr>]
     3 ''user_a'' ''b@x.org'' (Some ''Anna'') None None (Some ''a.png'')
   = ([\<lparr>row_id = ''user_b'', clerk_id = ''user_b'', email = ''b@x.org'', first_name = None,
       last_name = None, full_name = None, image_url = None, created_at = 1, updated_at = 1\<rparr>,
       \<lparr>row_id = ''user_a'', clerk_id = ''user_a'', email = ''a@x.org'', first_name = Some ''Ann'',
       last_name = None, full_name = None, image_url = None, created_at = 2, updated_at = 2\<rparr>],
      Inl IntegrityError)"
  by code_simp

theorem upsert_twice_witness:
  "create_or_update_user
     [\<lparr>row_id = ''user_b'', clerk_id = ''user_b'', email = ''b@x.org'', first_name = None,
       last_name = None, full_name = None, image_url = None, created_at = 1, updated_at = 1\<rparr>,
      \<lparr>row_id = ''user_a'', clerk_id = ''user_a'', email = ''a@x.org'', first_name = Some ''Ann'',
       last_name = None, full_name = None, image_url = None, created_at = 2, updated_at = 2\<rparr>]
     3 ''user_a'' ''ann@x.org'' (Some ''Anna'') None None (Some ''a.png'')
   = ([\<lparr>row_id = ''user_b'', clerk_id = ''user_b'', email = ''b@x.org'', first_name = None,
       last_name = None, full_name = None, image_url = None, created_at = 1, updated_at = 1\<rparr>,
       \<lparr>row_id = ''user_a'', clerk_id = ''user_a'', email = ''ann@x.org'', first_name = Some ''Anna'',
       last_name = None, full_name = None, image_url = Some ''a.png'', created_at = 2, updated_at = 3\<rparr>],
      Inr (Some \<lparr>row_id = ''user_a'', clerk_id = ''user_a'', email = ''ann@x.org'', first_name = Some ''Anna'',
       last_name = None, full_name = None, image_url = Some ''a.png'', created_at = 2, updated_at = 3\<rparr>)) \<and>
   filter (\<lambda>r. clerk_id r = ''user_a'')
     [\<lparr>row_id = ''user_b'', clerk_id = ''user_b'', email = ''b@x.org'', first_name = None,
       last_name = None, full_name = None, image_url = None, created_at = 1, updated_at = 1\<rparr>,
      \<lparr>row_id = ''user_a'', clerk_id = ''user_a'', email = ''ann@x.org'', first_name = Some ''Anna'',
       last_name = None, full_name = None, image_url = Some ''a.png'', created_at = 2, updated_at = 3\<rparr>]
   = [\<lparr>row_id = ''user_a'', clerk_id = ''user_a'', email = ''ann@x.org'', first_name = Some ''Anna'',
       last_name = None, full_name = None, image_url = Some ''a.png'', created_at = 2, updated_at = 3\<rparr>]"
proof -
  let ?b = "\<lparr>row_id = ''user_b'', clerk_id = ''user_b'', email = ''b@x.org'', first_name = None,
       last_name = None, full_name = None, image_url = None, created_at = 1, updated_at = 1\<rparr>"
  let ?a = "\<lparr>row_id = ''user_a'', clerk_id = ''user_a'', email = ''a@x.org'', first_name = Some ''Ann'',
       last_name = None, full_name = None, image_url = None, created_at = 2, updated_at = 2\<rparr>"
  have wf: "wf_users [?b]" by code_simp
  have first: "create_or_update_user [?b] 2 ''user_a'' ''a@x.org'' (Some ''Ann'') None None None
     = ([?b, ?a], Inr (Some ?a))" by code_simp
  have ne: "''ann@x.org'' \<noteq> ''a@x.org''" by simp
  have free: "''ann@x.org'' \<notin> email ` set [?b, ?a]" by simp
  from upsert_twice [OF wf first ne, where ?t2.0 = 3 and ?f2.0 = "Some ''Anna''" and ?l2.0 = None
      and ?n2.0 = None and ?i2.0 = "Some ''a.png''"] free
  show ?thesis by simp
qed


section \<open>Properties of document export\<close>

lemma split_hello_world:
  "split_on (CHR 0x0A) (''Hello'' @ [CHR 0x0A, CHR 0x0A] @ ''World'') = [''Hello'', [], ''World'']"
  by code_simp

lemma default_lookups:
  "dict_get DEFAULT_FORMATTING ''margins'' (JObj DEFAULT_MARGINS) = JObj DEFAULT_MARGINS"
  "dict_get_none DEFAULT_FORMATTING ''fontColor'' = JStr ''#000000''"
  "dict_get DEFAULT_FORMATTING ''fontColor'' (JStr ''#000000'') = JStr ''#000000''"
  "dict_get DEFAULT_FORMATTING ''alignment'' (JStr ''left'') = JStr ''left''"
  "dict_get_none DEFAULT_FORMATTING ''fontFamily'' = JStr ''Arial''"
  "dict_get_none DEFAULT_FORMATTING ''fontSize'' = JInt 12"
  "dict_get DEFAULT_FORMATTING ''fontSize'' (JInt 12) = JInt 12"
  "dict_get DEFAULT_FORMATTING ''lineSpacing'' (JFloat (3 / 2)) = JFloat (3 / 2)"
  "dict_get_none DEFAULT_FORMATTING ''bold'' = JBool False"
  "dict_get_none DEFAULT_FORMATTING ''italic'' = JBool False"
  "dict_get_none DEFAULT_FORMATTING ''underline'' = JBool False"
  "dict_get_none DEFAULT_FORMATTING ''pageNumbers'' = JBool False"
  by code_simp+

lemma margin_lookups:
  "dict_get DEFAULT_MARGINS ''top'' (JInt 1) = JInt 1"
  "dict_get DEFAULT_MARGINS ''bottom'' (JInt 1) = JInt 1"
  "dict_get DEFAULT_MARGINS ''left'' (JInt 1) = JInt 1"
  "dict_get DEFAULT_MARGINS ''right'' (JInt 1) = JInt 1"
  by code_simp+

lemma strips:
  "rstrip ''Hello'' = ''Hello''" "strip ''Hello'' = ''Hello''"
  "rstrip ''World'' = ''World''" "strip ''World'' = ''World''"
  "rstrip [] = []" "strip [] = []"
  by code_simp+

lemma docx_hello_world:
  "\<exists>d. build_docx_document lib dl
          \<lparr>content = Some (''Hello'' @ [CHR 0x0A, CHR 0x0A] @ ''World''),
           formatting = Some DEFAULT_FORMATTING\<rparr> = Inr d \<and>
       map run_text (paragraphs d) = [''Hello'', '' '', ''World'']"
proof -
  have c: "parse_color dl (JStr ''#000000'') = Inr (rgb_from_string dl ''000000'')"
    by (simp add: parse_color_def py_bool_def upper_char_def)
  have a: "lookup_name [(''left'', ''left''), (''center'', ''center''),
                        (''right'', ''right''), (''justify'', ''justify'')] (JStr ''left'') ''left''
           = Inr ''left''"
    by (simp add: lookup_name_def)
  show ?thesis
    using split_hello_world
    by (simp add: build_docx_document_def Let_def default_lookups margin_lookups as_dict_def
          and_then_def add_paragraph_def c a strips del: append.simps)
qed

lemma pdf_elements_hello_world:
  "pdf_elements 12 [''Hello'', [], ''World'']
     = [Paragraph ''Hello'', Spacer 1 (18 / 5), Spacer 1 (36 / 5), Paragraph ''World'',
        Spacer 1 (18 / 5)]"
  by (simp add: strips Let_def)

lemma merged_margins:
  "merge_formatting lib DEFAULT_FORMATTING [(''margins'', JObj [(''top'', JInt 2)])]
     = Inr [(''fontFamily'', JStr ''Arial''),
            (''fontSize'', JInt 12),
            (''fontColor'', JStr ''#000000''),
            (''bold'', JBool False),
            (''italic'', JBool False),
            (''underline'', JBool False),
            (''margins'', JObj [(''top'', JFloat 2), (''bottom'', JInt 1), (''left'', JInt 1),
                                (''right'', JInt 1)]),
            (''alignment'', JStr ''left''),
            (''lineSpacing'', JFloat (3 / 2)),
            (''pageNumbers'', JBool False)]"
  by (simp add: merge_formatting_def dict_get_def as_dict_def and_then_def py_float_def
        dict_update_def DEFAULT_MARGINS_def DEFAULT_FORMATTING_def)


text \<open>
  Claim C10. For the document with the three lines \<open>Hello\<close>, an empty line and \<open>World\<close>
  under the default formatting: the DOCX path builds three paragraphs with the run
  texts \<open>Hello\<close>, a single space and \<open>World\<close>. When \<open>HexColor\<close> accepts the default
  colour, the PDF path builds the paragraph \<open>Hello\<close> with its spacer, the spacer of the
  blank line, and the paragraph \<open>World\<close> with its spacer, with a top margin of 72
  points; and after merging the margins request \<open>{top: 2}\<close> into the default formatting
  the top margin is 2 * 72 = 144 points.
\<close>

theorem export_hello_world:
  "(\<exists>d. build_docx_document lib dl
          \<lparr>content = Some (''Hello'' @ [CHR 0x0A, CHR 0x0A] @ ''World''),
           formatting = Some DEFAULT_FORMATTING\<rparr> = Inr d \<and>
        map run_text (paragraphs d) = [''Hello'', '' '', ''World'']) \<and>
   (hex_color dl (JStr ''#000000'') = Inr col \<longrightarrow>
      (\<exists>p. build_pdf_document lib dl
          \<lparr>content = Some (''Hello'' @ [CHR 0x0A, CHR 0x0A] @ ''World''),
           formatting = Some DEFAULT_FORMATTING\<rparr> = Inr p \<and>
         elements p = [Paragraph ''Hello'', Spacer 1 (18 / 5), Spacer 1 (36 / 5),
                       Paragraph ''World'', Spacer 1 (18 / 5)] \<and>
         topMargin p = 72) \<and>
      (\<exists>m p. merge_formatting lib DEFAULT_FORMATTING [(''margins'', JObj [(''top'', JInt 2)])]
                = Inr m \<and>
         build_pdf_document lib dl
          \<lparr>content = Some (''Hello'' @ [CHR 0x0A, CHR 0x0A] @ ''World''),
           formatting = Some m\<rparr> = Inr p \<and>
         topMargin p = 2 * 72 \<and> topMargin p = 144))"
proof (intro conjI impI)
  show "\<exists>d. build_docx_document lib dl
          \<lparr>content = Some (''Hello'' @ [CHR 0x0A, CHR 0x0A] @ ''World''),
           formatting = Some DEFAULT_FORMATTING\<rparr> = Inr d \<and>
        map run_text (paragraphs d) = [''Hello'', '' '', ''World'']"
    by (rule docx_hello_world)
next
  assume h: "hex_color dl (JStr ''#000000'') = Inr col"
  show "\<exists>p. build_pdf_document lib dl
          \<lparr>content = Some (''Hello'' @ [CHR 0x0A, CHR 0x0A] @ ''World''),
           formatting = Some DEFAULT_FORMATTING\<rparr> = Inr p \<and>
         elements p = [Paragraph ''Hello'', Spacer 1 (18 / 5), Spacer 1 (36 / 5),
                       Paragraph ''World'', Spacer 1 (18 / 5)] \<and>
         topMargin p = 72"
    using split_hello_world pdf_elements_hello_world h
    by (simp add: build_pdf_document_def Let_def default_lookups margin_lookups as_dict_def
          and_then_def py_float_def lookup_name_def py_bool_def font_variant_def
          del: append.simps pdf_elements.simps)
  let ?m = "[(''fontFamily'', JStr ''Arial''),
            (''fontSize'', JInt 12),
            (''fontColor'', JStr ''#000000''),
            (''bold'', JBool False),
            (''italic'', JBool False),
            (''underline'', JBool False),
            (''margins'', JObj [(''top'', JFloat 2), (''bottom'', JInt 1), (''left'', JInt 1),
                                (''right'', JInt 1)]),
            (''alignment'', JStr ''left''),
            (''lineSpacing'', JFloat (3 / 2)),
            (''pageNumbers'', JBool False)]"
  have "\<exists>p. build_pdf_document lib dl
          \<lparr>content = Some (''Hello'' @ [CHR 0x0A, CHR 0x0A] @ ''World''),
           formatting = Some ?m\<rparr> = Inr p \<and> topMargin p = 2 * 72 \<and> topMargin p = 144"
    using h
    by (simp add: build_pdf_document_def Let_def dict_get_def dict_get_none_def as_dict_def
          and_then_def py_float_def lookup_name_def del: append.simps pdf_elements.simps)
  then show "\<exists>m p. merge_formatting lib DEFAULT_FORMATTING [(''margins'', JObj [(''top'', JInt 2)])]
                = Inr m \<and>
         build_pdf_document lib dl
          \<lparr>content = Some (''Hello'' @ [CHR 0x0A, CHR 0x0A] @ ''World''),
           formatting = Some m\<rparr> = Inr p \<and>
         topMargin p = 2 * 72 \<and> topMargin p = 144"
    using merged_margins by blast
qed

theorem export_hello_world_witness:
  "(\<exists>p. build_pdf_document sample_library sample_doc_library
          \<lparr>content = Some (''Hello'' @ [CHR 0x0A, CHR 0x0A] @ ''World''),
           formatting = Some DEFAULT_FORMATTING\<rparr> = Inr p \<and>
        elements p = [Paragraph ''Hello'', Spacer 1 (18 / 5), Spacer 1 (36 / 5),
                      Paragraph ''World'', Spacer 1 (18 / 5)] \<and>
        topMargin p = 72) \<and>
   (\<exists>m p. merge_formatting sample_library DEFAULT_FORMATTING
             [(''margins'', JObj [(''top'', JInt 2)])] = Inr m \<and>
        build_pdf_document sample_library sample_doc_library
          \<lparr>content = Some (''Hello'' @ [CHR 0x0A, CHR 0x0A] @ ''World''),
           formatting = Some m\<rparr> = Inr p \<and>
        topMargin p = 2 * 72 \<and> topMargin p = 144)"
proof -
  have h: "hex_color sample_doc_library (JStr ''#000000'') = Inr 0"
    by (simp add: sample_doc_library_def)
  from export_hello_world [of sample_library sample_doc_library 0] h show ?thesis by blast
qed


end
